theory Spec2Isabelle
  imports Main
begin

section \<open>Python strings\<close>

text \<open>
  A Python \<open>str\<close> is a sequence of Unicode code points. It is modelled as a list of
  natural numbers, one per code point, so that the Vietnamese texts of the program and
  the whitespace that \<open>str.strip\<close> removes are what Python sees (not UTF-8 bytes).
  \<open>str\<close> turns an ASCII literal into that representation.
\<close>

type_synonym pystr = "nat list"

definition str :: "string \<Rightarrow> pystr" where
  "str cs = map of_char cs"

text \<open>
  The code points for which Python's \<open>str.isspace\<close> holds, which are the ones
  \<open>str.strip()\<close> without argument removes: U+0009..U+000D, U+001C..U+0020, U+0085,
  U+00A0, U+1680, U+2000..U+200A, U+2028, U+2029, U+202F, U+205F, U+3000.
\<close>

definition is_space :: "nat \<Rightarrow> bool" where
  "is_space c \<longleftrightarrow>
     (9 \<le> c \<and> c \<le> 13) \<or> (28 \<le> c \<and> c \<le> 32) \<or> c = 133 \<or> c = 160 \<or> c = 5760 \<or>
     (8192 \<le> c \<and> c \<le> 8202) \<or> c = 8232 \<or> c = 8233 \<or> c = 8239 \<or> c = 8287 \<or> c = 12288"

text \<open>\<open>s.strip()\<close>\<close>

definition strip :: "pystr \<Rightarrow> pystr" where
  "strip s = rev (dropWhile is_space (rev (dropWhile is_space s)))"

text \<open>\<open>s.startswith(p)\<close>\<close>

fun startswith :: "pystr \<Rightarrow> pystr \<Rightarrow> bool" where
  "startswith s [] = True"
| "startswith [] (p # ps) = False"
| "startswith (c # cs) (p # ps) = (c = p \<and> startswith cs ps)"

text \<open>\<open>p in s\<close>\<close>

fun contains :: "pystr \<Rightarrow> pystr \<Rightarrow> bool" where
  "contains [] p = (p = [])"
| "contains (c # cs) p = (startswith (c # cs) p \<or> contains cs p)"

text \<open>
  \<open>s.split(sep)\<close> for a non-empty separator: the pieces between the leftmost
  non-overlapping occurrences of \<open>sep\<close>. \<open>split_from sep acc s\<close> scans \<open>s\<close> with the
  current piece (reversed) in \<open>acc\<close>. The program only splits at the constants
  \<open>"\n"\<close> and \<open>"Final Answer:"\<close>; an empty separator (a ValueError in Python) never
  occurs and is treated here as matching nowhere.
\<close>

function split_from :: "pystr \<Rightarrow> pystr \<Rightarrow> pystr \<Rightarrow> pystr list" where
  "split_from sep acc [] = [rev acc]"
| "split_from sep acc (c # cs) =
     (if sep \<noteq> [] \<and> startswith (c # cs) sep
      then rev acc # split_from sep [] (drop (length sep) (c # cs))
      else split_from sep (c # acc) cs)"
  by pat_completeness auto
termination
  by (relation "measure (\<lambda>(sep, acc, s). length s)") auto

definition py_split :: "pystr \<Rightarrow> pystr \<Rightarrow> pystr list" where
  "py_split s sep = split_from sep [] s"

text \<open>
  \<open>s.replace(old, new)\<close> for a non-empty \<open>old\<close>: every leftmost non-overlapping
  occurrence of \<open>old\<close> is replaced. The program only replaces the constants
  \<open>"Action:"\<close> and \<open>"Action Input:"\<close>.
\<close>

function py_replace :: "pystr \<Rightarrow> pystr \<Rightarrow> pystr \<Rightarrow> pystr" where
  "py_replace [] old new = []"
| "py_replace (c # cs) old new =
     (if old \<noteq> [] \<and> startswith (c # cs) old
      then new @ py_replace (drop (length old) (c # cs)) old new
      else c # py_replace cs old new)"
  by pat_completeness auto
termination
  by (relation "measure (\<lambda>(s, old, new). length s)") auto

text \<open>\<open>sep.join(xs)\<close>\<close>

fun py_join :: "pystr \<Rightarrow> pystr list \<Rightarrow> pystr" where
  "py_join sep [] = []"
| "py_join sep [x] = x"
| "py_join sep (x # y # ys) = x @ sep @ py_join sep (y # ys)"

text \<open>\<open>str(n)\<close> of a non-negative integer: its decimal digits.\<close>

function dec :: "nat \<Rightarrow> pystr" where
  "dec n = (if n < 10 then [48 + n] else dec (n div 10) @ [48 + n mod 10])"
  by pat_completeness auto
termination
  by (relation "measure (\<lambda>n. n)") auto

text \<open>Truthiness of an optional string: \<open>None\<close> and \<open>""\<close> are false.\<close>

fun truthy :: "pystr option \<Rightarrow> bool" where
  "truthy None = False"
| "truthy (Some s) = (s \<noteq> [])"

section \<open>The text protocol markers\<close>

definition NL :: pystr where
  "NL = [10]"

definition ACTION :: pystr where
  "ACTION = str ''Action:''"

definition ACTION_INPUT :: pystr where
  "ACTION_INPUT = str ''Action Input:''"

definition FINAL_ANSWER :: pystr where
  "FINAL_ANSWER = str ''Final Answer:''"

section \<open>StockReActAgent.parse_tool_usage\<close>

text \<open>
  The body of the \<open>for\<close> loop over the lines: a line whose stripped text starts with
  \<open>Action:\<close> becomes the action line, otherwise one whose stripped text starts with
  \<open>Action Input:\<close> becomes the input line; later lines overwrite earlier ones.
\<close>

fun scan_line :: "pystr \<Rightarrow> pystr option \<times> pystr option \<Rightarrow> pystr option \<times> pystr option" where
  "scan_line line (action_line, input_line) =
     (if startswith (strip line) ACTION then (Some (strip line), input_line)
      else if startswith (strip line) ACTION_INPUT then (action_line, Some (strip line))
      else (action_line, input_line))"

definition scan_lines :: "pystr list \<Rightarrow> pystr option \<times> pystr option" where
  "scan_lines lines = fold scan_line lines (None, None)"

text \<open>
  The message is a \<open>str\<close>, so no operation of the \<open>try\<close> block can raise and the
  \<open>except\<close> branch (which returns \<open>(None, None)\<close> as well) is not taken.
\<close>

definition parse_tool_usage :: "pystr \<Rightarrow> pystr option \<times> pystr option" where
  "parse_tool_usage message =
     (if \<not> contains message ACTION then (None, None)
      else
        (case scan_lines (py_split message NL) of
           (action_line, input_line) \<Rightarrow>
             if truthy action_line \<and> truthy input_line
             then (Some (strip (py_replace (the action_line) ACTION [])),
                   Some (strip (py_replace (the input_line) ACTION_INPUT [])))
             else (None, None)))"

text \<open>The lines of a message that bear each marker, and the stripped text of the last
  line of such a list (or a default when there is none).\<close>

definition action_lines :: "pystr \<Rightarrow> pystr list" where
  "action_lines message = filter (\<lambda>l. startswith (strip l) ACTION) (py_split message NL)"

definition input_lines :: "pystr \<Rightarrow> pystr list" where
  "input_lines message = filter (\<lambda>l. startswith (strip l) ACTION_INPUT) (py_split message NL)"

definition last_opt :: "pystr list \<Rightarrow> pystr option \<Rightarrow> pystr option" where
  "last_opt xs d = (if xs = [] then d else Some (strip (last xs)))"

section \<open>Errors\<close>

text \<open>
  Every exception of the program is a value that carries what \<open>str(e)\<close> is built from.
  \<open>KeyError k\<close> is a subscript \<open>d[k]\<close> on a dict without the key \<open>k\<close>. \<open>TypeError m\<close> is an
  operation on \<open>None\<close> where a \<open>str\<close> is needed and \<open>UnboundLocalError m\<close> a read of a
  local variable before its assignment, each with the interpreter's text \<open>m\<close> (the wording
  of CPython 3.12). \<open>ValidationError m\<close> is pydantic rejecting a field value. \<open>Raised m\<close> is
  an exception with text \<open>m\<close> raised by an injected collaborator (the chat provider, a
  tool, the workflow engine).
\<close>

datatype py_error =
    KeyError pystr
  | TypeError pystr
  | UnboundLocalError pystr
  | ValidationError pystr
  | Raised pystr

text \<open>\<open>str(e)\<close>: for a KeyError the key in quotes, otherwise the text.\<close>

fun exc_str :: "py_error \<Rightarrow> pystr" where
  "exc_str (KeyError k) = [39] @ k @ [39]"
| "exc_str (TypeError m) = m"
| "exc_str (UnboundLocalError m) = m"
| "exc_str (ValidationError m) = m"
| "exc_str (Raised m) = m"

definition JOIN_NONE :: "nat \<Rightarrow> pystr" where
  "JOIN_NONE i = str ''sequence item '' @ dec i @ str '': expected str instance, NoneType found''"


definition ADD_NONE :: pystr where
  "ADD_NONE = str ''unsupported operand type(s) for +: '' @ [39] @ str ''NoneType'' @ [39] @
     str '' and '' @ [39] @ str ''str'' @ [39]"

definition UNBOUND_CURRENT_STEP :: pystr where
  "UNBOUND_CURRENT_STEP = str ''cannot access local variable '' @ [39] @ str ''current_step'' @ [39] @
     str '' where it is not associated with a value''"

definition QUERY_INVALID :: pystr where
  "QUERY_INVALID = str ''1 validation error for QueryContext''"

section \<open>Data model (domain/entities/query\_context.py)\<close>

text \<open>A turn of the conversation: the dict \<open>{"role": ..., "content": ...}\<close>. The content
  is \<open>None\<close> where the program stores Python's \<open>None\<close> in it.\<close>

record message =
  role :: pystr
  content :: "pystr option"

definition SYSTEM :: pystr where
  "SYSTEM = str ''system''"

definition USER :: pystr where
  "USER = str ''user''"

definition ASSISTANT :: pystr where
  "ASSISTANT = str ''assistant''"

text \<open>
  The result dict of a tool, with the keys that \<open>format_tool_result\<close> reads: a field is
  \<open>None\<close> when the dict has no such key. \<open>py_repr\<close> is \<open>str(tool_result)\<close>, the rendering
  of the whole dict. A web search hit is the dict with \<open>title\<close>, \<open>content\<close> and \<open>url\<close>.
\<close>

record search_hit =
  hit_title :: "pystr option"
  hit_content :: "pystr option"
  hit_url :: "pystr option"

record tool_result =
  knowledge_context :: "pystr option"
  sources :: "pystr list option"
  results :: "search_hit list option"
  response :: "pystr option"
  model :: "pystr option"
  py_repr :: pystr

text \<open>
  The agent state is handled as a dict throughout (\<open>state["messages"]\<close>,
  \<open>state.get("tools_used", [])\<close>, \<open>{**state, ...}\<close>): a field is \<open>None\<close> when the dict
  has no such key. For \<open>final_answer\<close>, which is only ever read with \<open>.get\<close>, \<open>None\<close>
  stands for a missing key and for the value \<open>None\<close> alike.
\<close>

record agent_state =
  messages :: "message list option"
  current_step :: "int option"
  max_steps :: "int option"
  tools_used :: "pystr list option"
  intermediate_results :: "tool_result list option"
  final_answer :: "pystr option"

text \<open>\<open>QueryContext(query=...)\<close>; the timestamp and the metadata dict are left out.\<close>

record query_context =
  query :: pystr
  user_id :: "pystr option"
  session_id :: "pystr option"

text \<open>
  The dict with the field values that \<open>ReActWorkflow.run\<close> gives to the \<open>AgentState\<close>
  constructor for a query: the start state in the form in which \<open>_step\<close>, \<open>reason\<close> and
  \<open>should_continue\<close> subscript it. What \<open>run\<close> itself builds is an instance of the pydantic
  class, which is not a dict: see \<open>state_arg\<close> below.
\<close>

definition initial_state :: "pystr \<Rightarrow> agent_state" where
  "initial_state q =
     \<lparr>messages = Some [\<lparr>role = USER, content = Some q\<rparr>], current_step = Some 0,
      max_steps = Some 10, tools_used = Some [], intermediate_results = Some [],
      final_answer = None\<rparr>"

text \<open>\<open>d.get(key, default)\<close> on an optional field.\<close>

fun get_or :: "'a \<Rightarrow> 'a option \<Rightarrow> 'a" where
  "get_or d None = d"
| "get_or d (Some x) = x"

section \<open>StockReActAgent.reason\<close>

text \<open>
  \<open>_get_system_prompt\<close> reads
  \<^verbatim>\<open>        return \<close>
  \<^verbatim>\<open>    """ ... """.strip()\<close>
  The \<open>return\<close> statement ends at its line end, so the method returns \<open>None\<close>; the
  string literal below it, indented as the class body, is an expression statement of the
  class and is never returned.
\<close>

definition get_system_prompt :: "pystr option" where
  "get_system_prompt = None"

record reasoning_result =
  rr_messages :: "message list"
  rr_current_step :: int
  rr_final_answer :: "pystr option"

text \<open>
  The \<open>try\<close> block. When it raises, the handler needs to know whether the local
  variable \<open>current_step\<close> was assigned before: the second component of the failure.
  Both subscripts come before anything else, so a failure always leaves it unassigned.
\<close>

definition reason_try :: "agent_state \<Rightarrow> (py_error \<times> int option) + reasoning_result" where
  "reason_try state =
     (case messages state of
        None \<Rightarrow> Inl (KeyError (str ''messages''), None)
      | Some msgs \<Rightarrow>
          (case current_step state of
             None \<Rightarrow> Inl (KeyError (str ''current_step''), None)
           | Some cs \<Rightarrow>
               Inr \<lparr>rr_messages = \<lparr>role = SYSTEM, content = get_system_prompt\<rparr> # msgs,
                    rr_current_step = cs, rr_final_answer = None\<rparr>))"

text \<open>The two localized texts of the handler, \<open>"Loi xu ly: "\<close> and
  \<open>"Xin loi, da xay ra loi: "\<close>, with the code points of their Vietnamese letters.\<close>

definition LOI_XU_LY :: pystr where
  "LOI_XU_LY = str ''L'' @ [7895] @ str ''i x'' @ [7917] @ str '' l'' @ [253] @ str '': ''"

definition XIN_LOI :: pystr where
  "XIN_LOI = str ''Xin l'' @ [7895] @ str ''i, '' @ [273, 227] @ str '' x'' @ [7843] @
     str ''y ra l'' @ [7895] @ str ''i: ''"

text \<open>
  The \<open>except Exception as e\<close> handler. It builds the degraded result from
  \<open>state["messages"]\<close> and from the local variable \<open>current_step\<close>, in this order, and
  raises itself when the key or the variable is missing.
\<close>

definition reason_except :: "agent_state \<Rightarrow> py_error \<Rightarrow> int option \<Rightarrow> py_error + reasoning_result" where
  "reason_except state e local_current_step =
     (case messages state of
        None \<Rightarrow> Inl (KeyError (str ''messages''))
      | Some msgs \<Rightarrow>
          (case local_current_step of
             None \<Rightarrow> Inl (UnboundLocalError UNBOUND_CURRENT_STEP)
           | Some cs \<Rightarrow>
               Inr \<lparr>rr_messages = msgs @ [\<lparr>role = ASSISTANT, content = Some (LOI_XU_LY @ exc_str e)\<rparr>],
                    rr_current_step = cs + 1,
                    rr_final_answer = Some (XIN_LOI @ exc_str e)\<rparr>))"

definition reason :: "agent_state \<Rightarrow> py_error + reasoning_result" where
  "reason state =
     (case reason_try state of
        Inr result \<Rightarrow> Inr result
      | Inl (e, local_current_step) \<Rightarrow> reason_except state e local_current_step)"

section \<open>StockReActAgent.format\_tool\_result\<close>

text \<open>The fixed texts of the three renderings, with the code points of their Vietnamese
  letters: the heading and the source count of \<open>rag_knowledge\<close>, the empty answer, the
  heading and the entry layout of \<open>tavily_search\<close>, and the heading of \<open>chat_llm\<close>.\<close>

definition RAG_HEAD :: pystr where
  "RAG_HEAD = str ''Th'' @ [244] @ str ''ng tin t'' @ [7915] @ str '' c'' @ [417] @ str '' s'' @ [7903] @
     str '' d'' @ [7919] @ str '' li'' @ [7879] @ str ''u n'' @ [7897] @ str ''i b'' @ [7897] @ str '':'' @ [10]"

definition RAG_SOURCES :: pystr where
  "RAG_SOURCES = [10, 10] @ str ''Ngu'' @ [7891] @ str ''n tham kh'' @ [7843] @ str ''o: ''"

definition RAG_DOCS :: pystr where
  "RAG_DOCS = str '' t'' @ [224] @ str ''i li'' @ [7879] @ str ''u''"

definition WEB_NONE :: pystr where
  "WEB_NONE = str ''Kh'' @ [244] @ str ''ng t'' @ [236] @ str ''m th'' @ [7845] @ str ''y th'' @ [244] @
     str ''ng tin li'' @ [234] @ str ''n quan tr'' @ [234] @ str ''n web.''"

definition WEB_HEAD :: pystr where
  "WEB_HEAD = str ''K'' @ [7871] @ str ''t qu'' @ [7843] @ str '' t'' @ [236] @ str ''m ki'' @ [7871] @
     str ''m web:'' @ [10]"

definition WEB_SOURCE :: pystr where
  "WEB_SOURCE = [10] @ str ''  Ngu'' @ [7891] @ str ''n: ''"

definition LLM_HEAD :: pystr where
  "LLM_HEAD = str ''K'' @ [7871] @ str ''t qu'' @ [7843] @ str '' t'' @ [7915] @ str '' LLM (''"

text \<open>One entry of the web rendering: bullet, title, the first 300 characters of the
  content followed by three dots, and the url.\<close>

definition format_hit :: "search_hit \<Rightarrow> pystr" where
  "format_hit hit =
     [8226] @ str '' '' @ get_or [] (hit_title hit) @ [10] @ str ''  '' @
     (take 300 (get_or [] (hit_content hit)) @ str ''...'') @ WEB_SOURCE @ get_or [] (hit_url hit)"

definition format_tool_result :: "pystr \<Rightarrow> tool_result \<Rightarrow> pystr" where
  "format_tool_result tool_name tool_result =
     (if tool_name = str ''rag_knowledge''
      then RAG_HEAD @ get_or [] (knowledge_context tool_result) @
           (if get_or [] (sources tool_result) \<noteq> []
            then RAG_SOURCES @ dec (length (get_or [] (sources tool_result))) @ RAG_DOCS
            else [])
      else if tool_name = str ''tavily_search''
      then (if get_or [] (results tool_result) = [] then WEB_NONE
            else WEB_HEAD @ py_join [10, 10] (map format_hit (take 3 (get_or [] (results tool_result)))))
      else if tool_name = str ''chat_llm''
      then LLM_HEAD @ get_or (str ''unknown'') (model tool_result) @ str ''):'' @ [10] @
           get_or [] (response tool_result)
      else py_repr tool_result)"

section \<open>ReActCoordinator.\_step\<close>

text \<open>
  The collaborators are injected: \<open>chat\<close> is the chat provider (from the prompt to the
  \<open>"response"\<close> field of its reply, or an exception) and \<open>tools\<close> the registry from names
  to tools. A tool is its \<open>_execute_impl\<close>; \<open>BaseTool.execute\<close> awaits it and returns what
  it returns, with no handler.
\<close>

type_synonym tool = "query_context \<Rightarrow> pystr \<Rightarrow> py_error + tool_result"

definition execute :: "tool \<Rightarrow> query_context \<Rightarrow> pystr \<Rightarrow> py_error + tool_result" where
  "execute execute_impl ctx q = execute_impl ctx q"

text \<open>\<open>"\n".join([msg["content"] for msg in conversation])\<close>: the first \<open>None\<close> among
  the items is a TypeError that names its position.\<close>

fun str_items :: "nat \<Rightarrow> pystr option list \<Rightarrow> py_error + pystr list" where
  "str_items i [] = Inr []"
| "str_items i (None # xs) = Inl (TypeError (JOIN_NONE i))"
| "str_items i (Some x # xs) =
     (case str_items (Suc i) xs of Inl e \<Rightarrow> Inl e | Inr ys \<Rightarrow> Inr (x # ys))"

definition join_contents :: "message list \<Rightarrow> py_error + pystr" where
  "join_contents conversation =
     (case str_items 0 (map content conversation) of
        Inl e \<Rightarrow> Inl e
      | Inr cs \<Rightarrow> Inr (py_join NL cs))"

text \<open>
  The part of \<open>_step\<close> that follows the model's reply (from \<open>messages = conversation + ...\<close>
  to the end), for the conversation and the step counter of the reasoning result.
\<close>

definition step_reply ::
  "(pystr \<rightharpoonup> tool) \<Rightarrow> agent_state \<Rightarrow> message list \<Rightarrow> int \<Rightarrow> pystr \<Rightarrow> py_error + agent_state" where
  "step_reply tools state conversation cs response_content =
     (let msgs = conversation @ [\<lparr>role = ASSISTANT, content = Some response_content\<rparr>];
          thinking = state\<lparr>messages := Some msgs, current_step := Some (cs + 1)\<rparr>
      in
      if contains response_content FINAL_ANSWER
      then Inr (state\<lparr>messages := Some msgs, current_step := Some (cs + 1),
                  final_answer := Some (strip (last (py_split response_content FINAL_ANSWER)))\<rparr>)
      else
        (case parse_tool_usage response_content of
           (Some tool_name, tool_input) \<Rightarrow>
             if tool_name = [] then Inr thinking
             else
               (case tools tool_name of
                  None \<Rightarrow> Inr thinking
                | Some tool \<Rightarrow>
                    (case tool_input of
                       None \<Rightarrow> Inl (ValidationError QUERY_INVALID)
                     | Some inp \<Rightarrow>
                         (case execute tool \<lparr>query = inp, user_id = None, session_id = None\<rparr> inp of
                            Inl e \<Rightarrow> Inl e
                          | Inr tool_result \<Rightarrow>
                              Inr (state\<lparr>messages :=
                                           Some (msgs @ [\<lparr>role = USER,
                                                         content = Some (format_tool_result tool_name tool_result)\<rparr>]),
                                         current_step := Some (cs + 1),
                                         tools_used := Some (get_or [] (tools_used state) @ [tool_name]),
                                         intermediate_results :=
                                           Some (get_or [] (intermediate_results state) @ [tool_result])\<rparr>))))
         | (None, tool_input) \<Rightarrow> Inr thinking))"

definition step ::
  "(pystr \<Rightarrow> py_error + pystr) \<Rightarrow> (pystr \<rightharpoonup> tool) \<Rightarrow> agent_state \<Rightarrow> py_error + agent_state" where
  "step chat tools state =
     (case reason state of
        Inl e \<Rightarrow> Inl e
      | Inr reasoning_result \<Rightarrow>
          if truthy (rr_final_answer reasoning_result)
          then Inr (state\<lparr>messages := Some (rr_messages reasoning_result),
                      current_step := Some (rr_current_step reasoning_result + 1),
                      final_answer := rr_final_answer reasoning_result\<rparr>)
          else
            (case join_contents (rr_messages reasoning_result) of
               Inl e \<Rightarrow> Inl e
             | Inr prompt \<Rightarrow>
                 (case chat prompt of
                    Inl e \<Rightarrow> Inl e
                  | Inr response_content \<Rightarrow>
                      step_reply tools state (rr_messages reasoning_result)
                        (rr_current_step reasoning_result) response_content)))"

section \<open>ReActWorkflow: should\_continue\<close>



section \<open>StockAnalysisService.analyze\<close>

record analysis =
  answer :: pystr
  success :: bool
  meta_session_id :: "pystr option"
  steps :: nat
  meta_tools_used :: "pystr list"
  meta_intermediate_results :: "tool_result list"

text \<open>The loop that concatenates the contents of the turns whose role is not \<open>user\<close>, each
  followed by a newline; \<open>None + "\n"\<close> is a TypeError.\<close>

fun combine :: "message list \<Rightarrow> pystr \<Rightarrow> py_error + pystr" where
  "combine [] combined_answer = Inr combined_answer"
| "combine (msg # msgs) combined_answer =
     (if role msg = USER then combine msgs combined_answer
      else
        (case content msg of
           None \<Rightarrow> Inl (TypeError ADD_NONE)
         | Some c \<Rightarrow> combine msgs (combined_answer @ c @ NL)))"

text \<open>The text \<open>"Xin loi, da xay ra loi trong qua trinh phan tich: "\<close> of the failure
  payload, with the code points of its Vietnamese letters.\<close>

definition XIN_LOI_PHAN_TICH :: pystr where
  "XIN_LOI_PHAN_TICH = str ''Xin l'' @ [7895] @ str ''i, '' @ [273, 227] @ str '' x'' @ [7843] @
     str ''y ra l'' @ [7895] @ str ''i trong qu'' @ [225] @ str '' tr'' @ [236] @ str ''nh ph'' @ [226] @
     str ''n t'' @ [237] @ str ''ch: ''"

definition failure_payload :: "pystr option \<Rightarrow> py_error \<Rightarrow> analysis" where
  "failure_payload sid e =
     \<lparr>answer = XIN_LOI_PHAN_TICH @ exc_str e, success = False, meta_session_id = sid, steps = 0,
      meta_tools_used = [], meta_intermediate_results = []\<rparr>"

text \<open>
  \<open>analyze\<close> as a function of what \<open>await self.workflow_manager.run(query, session_id)\<close>
  produced: the terminal state of the workflow, or the exception it raised.
\<close>

definition analyze :: "py_error + agent_state \<Rightarrow> pystr option \<Rightarrow> analysis" where
  "analyze run_outcome sid =
     (case run_outcome of
        Inl e \<Rightarrow> failure_payload sid e
      | Inr final_state \<Rightarrow>
          (case combine (get_or [] (messages final_state)) [] of
             Inl e \<Rightarrow> failure_payload sid e
           | Inr combined_answer \<Rightarrow>
               \<lparr>answer = (if truthy (final_answer final_state) then get_or [] (final_answer final_state)
                           else strip combined_answer),
                success = True, meta_session_id = sid,
                steps = length (get_or [] (messages final_state)),
                meta_tools_used = get_or [] (tools_used final_state),
                meta_intermediate_results = get_or [] (intermediate_results final_state)\<rparr>))"

section \<open>The state argument: a dict or an instance of AgentState\<close>

text \<open>
  \<open>reason\<close>, \<open>_step\<close> and \<open>should_continue\<close> subscript their state as a dict. The declared
  type \<open>AgentState\<close> is a pydantic \<open>BaseModel\<close>, and \<open>ReActWorkflow.run\<close> builds an instance
  of it; an instance has no \<open>__getitem__\<close>, so a subscript on it raises the TypeError
  \<open>'AgentState' object is not subscriptable\<close>. \<open>AsDict\<close> is a dict with the given keys,
  \<open>AsModel\<close> an instance with the given field values.
\<close>

datatype state_arg = AsDict agent_state | AsModel agent_state

definition NOT_SUBSCRIPTABLE :: pystr where
  "NOT_SUBSCRIPTABLE = [39] @ str ''AgentState'' @ [39] @ str '' object is not subscriptable''"

text \<open>
  \<open>reason\<close> on either form. On an instance the first statement of the \<open>try\<close> block,
  \<open>state["messages"]\<close>, raises; the handler starts with \<open>state["messages"]\<close> again and
  raises the same error, which leaves \<open>reason\<close>.
\<close>

definition reason_call :: "state_arg \<Rightarrow> py_error + reasoning_result" where
  "reason_call arg =
     (case arg of
        AsDict state \<Rightarrow> reason state
      | AsModel obj \<Rightarrow> Inl (TypeError NOT_SUBSCRIPTABLE))"

text \<open>
  \<open>_step\<close> on either form. It awaits \<open>reason\<close> first and has no handler, so on an instance
  the error of \<open>reason\<close> leaves it; the lines after it (\<open>{**state, ...}\<close>) would fail on
  an instance as well.
\<close>

definition step_call ::
  "(pystr \<Rightarrow> py_error + pystr) \<Rightarrow> (pystr \<rightharpoonup> tool) \<Rightarrow> state_arg \<Rightarrow> py_error + agent_state" where
  "step_call chat tools arg =
     (case arg of
        AsDict state \<Rightarrow> step chat tools state
      | AsModel obj \<Rightarrow>
          (case reason_call (AsModel obj) of
             Inl e \<Rightarrow> Inl e
           | Inr reasoning_result \<Rightarrow> Inl (TypeError NOT_SUBSCRIPTABLE)))"

section \<open>ReActWorkflow.run\<close>



section \<open>Concrete collaborators and states\<close>

text \<open>
  Two tools for concrete runs: one whose \<open>_execute_impl\<close> raises (the three tools of the
  program log and re-raise when their provider fails), one that returns the dict
  \<open>{"response": "hello", "model": "m"}\<close>. The state \<open>answered\<close> is a state whose
  \<open>final_answer\<close> is already set, \<open>after_tool\<close> one whose last turn is the observation of
  a tool call, \<open>awaiting_tool\<close> one whose last turn is a reply that asks for a tool.
\<close>

definition failing_tool :: tool where
  "failing_tool ctx q = Inl (Raised (str ''provider down''))"

definition canned_result :: tool_result where
  "canned_result =
     \<lparr>knowledge_context = None, sources = None, results = None,
      response = Some (str ''hello''), model = Some (str ''m''),
      py_repr = str ''{'' @ [39] @ str ''response'' @ [39] @ str '': '' @ [39] @ str ''hello'' @ [39] @
        str '', '' @ [39] @ str ''model'' @ [39] @ str '': '' @ [39] @ str ''m'' @ [39] @ str ''}''\<rparr>"

definition canned_tool :: tool where
  "canned_tool ctx q = Inr canned_result"

definition answered :: agent_state where
  "answered =
     \<lparr>messages = Some [\<lparr>role = USER, content = Some (str ''hi'')\<rparr>,
                       \<lparr>role = ASSISTANT, content = Some (str ''Final Answer: A'')\<rparr>],
      current_step = Some 1, max_steps = Some 10, tools_used = Some [],
      intermediate_results = Some [], final_answer = Some (str ''A'')\<rparr>"

definition after_tool :: agent_state where
  "after_tool =
     \<lparr>messages = Some [\<lparr>role = USER, content = Some (str ''hi'')\<rparr>,
                       \<lparr>role = ASSISTANT, content = Some (str ''Action: chat_llm'' @ NL @ str ''Action Input: hi'')\<rparr>,
                       \<lparr>role = USER, content = Some (format_tool_result (str ''chat_llm'') canned_result)\<rparr>],
      current_step = Some 1, max_steps = Some 10, tools_used = Some [str ''chat_llm''],
      intermediate_results = Some [canned_result], final_answer = None\<rparr>"

definition awaiting_tool :: agent_state where
  "awaiting_tool =
     \<lparr>messages = Some [\<lparr>role = USER, content = Some (str ''hi'')\<rparr>,
                       \<lparr>role = ASSISTANT, content = Some (str ''Action: chat_llm'' @ NL @ str ''Action Input: hi'')\<rparr>],
      current_step = Some 1, max_steps = Some 10, tools_used = Some [],
      intermediate_results = Some [], final_answer = None\<rparr>"

text \<open>A state dict without the key \<open>current_step\<close>.\<close>

definition no_step_key :: agent_state where
  "no_step_key =
     \<lparr>messages = Some [\<lparr>role = USER, content = Some (str ''hi'')\<rparr>], current_step = None,
      max_steps = Some 10, tools_used = Some [], intermediate_results = Some [],
      final_answer = None\<rparr>"



section \<open>Properties of the string operations\<close>


lemma startswith_iff: "startswith s p \<longleftrightarrow> (\<exists>t. s = p @ t)"
  by (induction s p rule: startswith.induct) auto

lemma contains_iff: "contains s p \<longleftrightarrow> (\<exists>a b. s = a @ p @ b)"
proof (induction s)
  case Nil
  then show ?case by auto
next
  case (Cons c cs)
  show ?case
  proof
    assume "contains (c # cs) p"
    then consider "startswith (c # cs) p" | "contains cs p" by auto
    then show "\<exists>a b. c # cs = a @ p @ b"
    proof cases
      case 1
      then obtain t where "c # cs = p @ t" by (auto simp: startswith_iff)
      then have "c # cs = [] @ p @ t" by simp
      then show ?thesis by blast
    next
      case 2
      then obtain a b where "cs = a @ p @ b" using Cons.IH by auto
      then have "c # cs = (c # a) @ p @ b" by simp
      then show ?thesis by blast
    qed
  next
    assume "\<exists>a b. c # cs = a @ p @ b"
    then obtain a b where ab: "c # cs = a @ p @ b" by auto
    show "contains (c # cs) p"
    proof (cases a)
      case Nil
      then have "startswith (c # cs) p" using ab by (simp add: startswith_iff)
      then show ?thesis by simp
    next
      case (Cons x a')
      then have "cs = a' @ p @ b" using ab by simp
      then show ?thesis using Cons.IH by auto
    qed
  qed
qed

lemma split_from_substring:
  "l \<in> set (split_from sep acc s) \<Longrightarrow> \<exists>a b. rev acc @ s = a @ l @ b"
proof (induction sep acc s rule: split_from.induct)
  case (1 sep acc)
  then have "rev acc @ [] = [] @ l @ []" by simp
  then show ?case by blast
next
  case (2 sep acc c cs)
  show ?case
  proof (cases "sep \<noteq> [] \<and> startswith (c # cs) sep")
    case True
    then have "l = rev acc \<or> l \<in> set (split_from sep [] (drop (length sep) (c # cs)))"
      using "2.prems" by auto
    then show ?thesis
    proof
      assume "l = rev acc"
      then have "rev acc @ c # cs = [] @ l @ (c # cs)" by simp
      then show ?thesis by blast
    next
      assume "l \<in> set (split_from sep [] (drop (length sep) (c # cs)))"
      then obtain a b where "rev [] @ drop (length sep) (c # cs) = a @ l @ b"
        using "2.IH"(1) True by blast
      then have "rev acc @ c # cs = (rev acc @ take (length sep) (c # cs) @ a) @ l @ b"
        by (metis append.assoc append_Nil append_take_drop_id rev.simps(1))
      then show ?thesis by blast
    qed
  next
    case False
    then have "l \<in> set (split_from sep (c # acc) cs)" using "2.prems" by auto
    then obtain a b where "rev (c # acc) @ cs = a @ l @ b" using "2.IH"(2) False by blast
    then show ?thesis by auto
  qed
qed

lemma strip_substring: "\<exists>a b. l = a @ strip l @ b"
proof -
  let ?d = "dropWhile is_space l"
  have 1: "l = takeWhile is_space l @ ?d" by simp
  have "rev ?d = takeWhile is_space (rev ?d) @ dropWhile is_space (rev ?d)" by simp
  then have "?d = rev (dropWhile is_space (rev ?d)) @ rev (takeWhile is_space (rev ?d))"
    by (metis rev_append rev_rev_ident)
  then have "l = takeWhile is_space l @ strip l @ rev (takeWhile is_space (rev ?d))"
    using 1 by (simp add: strip_def)
  then show ?thesis by blast
qed

lemma action_line_in_message:
  assumes "l \<in> set (py_split m NL)" and "startswith (strip l) ACTION"
  shows "contains m ACTION"
proof -
  obtain a b where ab: "m = a @ l @ b"
    using split_from_substring[of l NL "[]" m] assms(1) by (auto simp: py_split_def)
  obtain c d where cd: "l = c @ strip l @ d" using strip_substring by blast
  obtain t where t: "strip l = ACTION @ t" using assms(2) by (auto simp: startswith_iff)
  have "m = (a @ c) @ ACTION @ (t @ d @ b)" using ab cd t by (metis append.assoc)
  then show ?thesis unfolding contains_iff by blast
qed

lemma input_not_action: "startswith x ACTION_INPUT \<Longrightarrow> \<not> startswith x ACTION"
  by (auto simp: startswith_iff ACTION_def ACTION_INPUT_def str_def)

lemma action_nonempty: "startswith x ACTION \<Longrightarrow> x \<noteq> []"
  by (auto simp: startswith_iff ACTION_def str_def)

lemma input_nonempty: "startswith x ACTION_INPUT \<Longrightarrow> x \<noteq> []"
  by (auto simp: startswith_iff ACTION_INPUT_def str_def)

lemma fold_scan_line:
  "fold scan_line ls (a, i) =
     (last_opt (filter (\<lambda>l. startswith (strip l) ACTION) ls) a,
      last_opt (filter (\<lambda>l. startswith (strip l) ACTION_INPUT) ls) i)"
proof (induction ls arbitrary: a i rule: rev_induct)
  case Nil
  then show ?case by (simp add: last_opt_def)
next
  case (snoc l ls)
  then show ?case by (auto simp: last_opt_def input_not_action)
qed


section \<open>StockReActAgent.parse_tool_usage: properties\<close>

lemmas ev = parse_tool_usage_def NL_def ACTION_def ACTION_INPUT_def FINAL_ANSWER_def str_def
  py_split_def scan_lines_def strip_def is_space_def

lemma parse_tool_usage_lines:
  "parse_tool_usage message =
     (if action_lines message = [] \<or> input_lines message = [] then (None, None)
      else (Some (strip (py_replace (strip (last (action_lines message))) ACTION [])),
            Some (strip (py_replace (strip (last (input_lines message))) ACTION_INPUT []))))"
proof (cases "contains message ACTION")
  case False
  have "action_lines message = []"
  proof (rule ccontr)
    assume "action_lines message \<noteq> []"
    then obtain l where "l \<in> set (action_lines message)" by (meson last_in_set)
    then have "l \<in> set (py_split message NL)" "startswith (strip l) ACTION"
      by (auto simp: action_lines_def)
    then show False using False action_line_in_message by blast
  qed
  then show ?thesis using False by (simp add: parse_tool_usage_def)
next
  case True
  have scan: "scan_lines (py_split message NL) =
      (last_opt (action_lines message) None, last_opt (input_lines message) None)"
    by (simp add: scan_lines_def fold_scan_line action_lines_def input_lines_def)
  have a: "action_lines message \<noteq> [] \<Longrightarrow> strip (last (action_lines message)) \<noteq> []"
  proof -
    assume "action_lines message \<noteq> []"
    then have "last (action_lines message) \<in> set (action_lines message)" by simp
    then have "startswith (strip (last (action_lines message))) ACTION"
      by (simp add: action_lines_def)
    then show ?thesis by (rule action_nonempty)
  qed
  have i: "input_lines message \<noteq> [] \<Longrightarrow> strip (last (input_lines message)) \<noteq> []"
  proof -
    assume "input_lines message \<noteq> []"
    then have "last (input_lines message) \<in> set (input_lines message)" by simp
    then have "startswith (strip (last (input_lines message))) ACTION_INPUT"
      by (simp add: input_lines_def)
    then show ?thesis by (rule input_nonempty)
  qed
  show ?thesis using True a i by (simp add: parse_tool_usage_def scan last_opt_def)
qed


lemma py_replace_absent: "\<not> contains t old \<Longrightarrow> py_replace t old new = t"
  by (induction t) auto

lemma py_replace_prefix:
  assumes "old \<noteq> []" shows "py_replace (old @ t) old new = new @ py_replace t old new"
proof -
  obtain c cs where c: "old @ t = c # cs" using assms by (cases old) auto
  have "startswith (c # cs) old" using c by (metis startswith_iff)
  moreover have "drop (length old) (c # cs) = t" using c by (metis append_eq_conv_conj)
  ultimately show ?thesis using c assms by simp
qed

text \<open>When the marker occurs once in the line, the tool name is the stripped text that
  follows it.\<close>

lemma tool_name_after_marker:
  assumes "strip l = ACTION @ t" and "\<not> contains t ACTION"
  shows "strip (py_replace (strip l) ACTION []) = strip t"
proof -
  have "ACTION \<noteq> []" by (simp add: ACTION_def str_def)
  then show ?thesis using assms by (simp add: py_replace_prefix py_replace_absent)
qed

lemma strip_ws_left:
  assumes "\<forall>c\<in>set ws. is_space c" shows "strip (ws @ x) = strip x"
proof -
  have "dropWhile is_space (ws @ x) = dropWhile is_space x"
    using assms by (intro dropWhile_append2) auto
  then show ?thesis by (simp add: strip_def)
qed

lemma strip_ws_right:
  assumes "\<forall>c\<in>set ws. is_space c" shows "strip (x @ ws) = strip x"
proof (cases "\<forall>c\<in>set x. is_space c")
  case True
  then have "dropWhile is_space (x @ ws) = []" "dropWhile is_space x = []"
    using assms by (simp_all add: dropWhile_eq_Nil_conv ball_Un)
  then show ?thesis unfolding strip_def by (simp only:)
next
  case False
  then obtain c where "c \<in> set x" "\<not> is_space c" by blast
  then have "dropWhile is_space (x @ ws) = dropWhile is_space x @ ws"
    by (simp add: dropWhile_append1)
  moreover have "dropWhile is_space (rev ws @ rev (dropWhile is_space x)) =
      dropWhile is_space (rev (dropWhile is_space x))"
    using assms by (intro dropWhile_append2) auto
  ultimately show ?thesis by (simp add: strip_def)
qed

lemma split_nl_cons:
  "split_from NL acc (c # cs) =
     (if c = 10 then rev acc # split_from NL [] cs else split_from NL (c # acc) cs)"
  by (simp add: NL_def)

lemma split_nl_acc:
  "split_from NL acc s = (rev acc @ hd (split_from NL [] s)) # tl (split_from NL [] s)"
proof (induction s arbitrary: acc)
  case Nil
  then show ?case by simp
next
  case (Cons c cs)
  show ?case
  proof (cases "c = 10")
    case True
    then show ?thesis by (simp add: split_nl_cons del: split_from.simps(2))
  next
    case False
    have "split_from NL acc (c # cs) = split_from NL (c # acc) cs"
      using False by (simp add: split_nl_cons del: split_from.simps(2))
    also have "\<dots> = (rev (c # acc) @ hd (split_from NL [] cs)) # tl (split_from NL [] cs)"
      by (rule Cons.IH)
    also have "\<dots> = (rev acc @ hd (split_from NL [c] cs)) # tl (split_from NL [c] cs)"
      using Cons.IH[of "[c]"] by simp
    also have "\<dots> = (rev acc @ hd (split_from NL [] (c # cs))) # tl (split_from NL [] (c # cs))"
      using False by (simp add: split_nl_cons del: split_from.simps(2))
    finally show ?thesis .
  qed
qed

lemma split_from_nonempty: "split_from NL acc s \<noteq> []"
  by (metis split_nl_acc list.distinct(1))

lemma split_nl_append:
  "split_from NL acc (a @ 10 # b) = split_from NL acc a @ split_from NL [] b"
proof (induction a arbitrary: acc)
  case Nil
  then show ?case by (simp add: split_nl_cons del: split_from.simps(2))
next
  case (Cons c cs)
  then show ?case by (simp add: split_nl_cons del: split_from.simps(2))
qed

lemma split_nl_ws_left:
  "10 \<notin> set w \<Longrightarrow> split_from NL acc (w @ s) = split_from NL (rev w @ acc) s"
proof (induction w arbitrary: acc)
  case Nil
  then show ?case by simp
next
  case (Cons c cs)
  then show ?case by (simp add: split_nl_cons del: split_from.simps(2))
qed

lemma split_nl_ws_right:
  "10 \<notin> set w \<Longrightarrow> split_from NL acc (s @ w) =
     butlast (split_from NL acc s) @ [last (split_from NL acc s) @ w]"
proof (induction s arbitrary: acc)
  case Nil
  then show ?case using split_nl_ws_left[of w acc "[]"] by simp
next
  case (Cons c cs)
  show ?case using Cons split_from_nonempty by (simp add: split_nl_cons del: split_from.simps(2))
qed

lemma parse_stripped_lines:
  assumes "map strip (py_split m NL) = map strip (py_split m' NL)"
  shows "parse_tool_usage m = parse_tool_usage m'"
proof -
  have a: "map strip (action_lines x) = filter (\<lambda>l. startswith l ACTION) (map strip (py_split x NL))"
    for x by (simp add: action_lines_def filter_map comp_def)
  have i: "map strip (input_lines x) = filter (\<lambda>l. startswith l ACTION_INPUT) (map strip (py_split x NL))"
    for x by (simp add: input_lines_def filter_map comp_def)
  have ma: "map strip (action_lines m) = map strip (action_lines m')" using assms a by simp
  have mi: "map strip (input_lines m) = map strip (input_lines m')" using assms i by simp
  have ea: "action_lines m = [] \<longleftrightarrow> action_lines m' = []" using ma by (metis map_is_Nil_conv)
  have ei: "input_lines m = [] \<longleftrightarrow> input_lines m' = []" using mi by (metis map_is_Nil_conv)
  have la: "action_lines m \<noteq> [] \<Longrightarrow> strip (last (action_lines m)) = strip (last (action_lines m'))"
    using ma ea by (metis last_map)
  have li: "input_lines m \<noteq> [] \<Longrightarrow> strip (last (input_lines m)) = strip (last (input_lines m'))"
    using mi ei by (metis last_map)
  show ?thesis using ea ei la li by (simp add: parse_tool_usage_lines)
qed

lemma lines_ws_left:
  assumes "\<forall>c\<in>set ws. is_space c" and "10 \<notin> set ws"
  shows "map strip (split_from NL [] (ws @ rest)) = map strip (split_from NL [] rest)"
proof -
  let ?L = "split_from NL [] rest"
  have "split_from NL [] (ws @ rest) = (ws @ hd ?L) # tl ?L"
    using split_nl_ws_left[OF assms(2), of "[]" rest] split_nl_acc[of "rev ws" rest] by simp
  moreover have "?L = hd ?L # tl ?L" using split_from_nonempty by simp
  ultimately show ?thesis using strip_ws_left[OF assms(1)] by (metis list.simps(9))
qed

lemma lines_ws_right:
  assumes "\<forall>c\<in>set ws. is_space c" and "10 \<notin> set ws"
  shows "map strip (split_from NL [] (pre @ ws)) = map strip (split_from NL [] pre)"
proof -
  let ?L = "split_from NL [] pre"
  have "split_from NL [] (pre @ ws) = butlast ?L @ [last ?L @ ws]"
    using split_nl_ws_right[OF assms(2)] by simp
  moreover have "?L = butlast ?L @ [last ?L]" using split_from_nonempty by simp
  ultimately show ?thesis using strip_ws_right[OF assms(1)]
    by (metis (no_types, lifting) list.simps(8,9) map_append)
qed

lemma padding_same_stripped_lines:
  assumes "\<forall>c\<in>set ws. is_space c" and "10 \<notin> set ws"
    and "pre = [] \<or> last pre = 10 \<or> rest = [] \<or> hd rest = 10"
  shows "map strip (py_split (pre @ ws @ rest) NL) = map strip (py_split (pre @ rest) NL)"
proof -
  consider (at_start) "pre = []" | (after_nl) p where "pre = p @ [10]"
    | (at_end) "rest = []" | (before_nl) r where "rest = 10 # r"
    using assms(3) by (metis append_butlast_last_id list.collapse)
  then show ?thesis
  proof cases
    case at_start
    then show ?thesis using lines_ws_left[OF assms(1,2)] by (simp add: py_split_def)
  next
    case after_nl
    have "split_from NL [] (pre @ ws @ rest) = split_from NL [] p @ split_from NL [] (ws @ rest)"
      using after_nl split_nl_append[of "[]" p "ws @ rest"] by simp
    moreover have "split_from NL [] (pre @ rest) = split_from NL [] p @ split_from NL [] rest"
      using after_nl split_nl_append[of "[]" p rest] by simp
    ultimately show ?thesis using lines_ws_left[OF assms(1,2)] by (simp add: py_split_def)
  next
    case at_end
    then show ?thesis using lines_ws_right[OF assms(1,2)] by (simp add: py_split_def)
  next
    case before_nl
    have "split_from NL [] (pre @ ws @ rest) = split_from NL [] (pre @ ws) @ split_from NL [] r"
      using before_nl split_nl_append[of "[]" "pre @ ws" r] by simp
    moreover have "split_from NL [] (pre @ rest) = split_from NL [] pre @ split_from NL [] r"
      using before_nl split_nl_append[of "[]" pre r] by simp
    ultimately show ?thesis using lines_ws_right[OF assms(1,2)] by (simp add: py_split_def)
  qed
qed

text \<open>
  Claim C10. Each line is stripped before the marker prefix is tested: whitespace put at
  the start or at the end of any line of a message (an indentation, trailing blanks)
  does not change what \<open>parse_tool_usage\<close> returns, and the indented line
  \<open>"   Action: chat_llm"\<close> yields the tool name \<open>chat_llm\<close>.
\<close>

theorem parse_tool_usage_ignores_padding:
  assumes "\<forall>c\<in>set ws. is_space c" and "10 \<notin> set ws"
    and "pre = [] \<or> last pre = 10 \<or> rest = [] \<or> hd rest = 10"
  shows "parse_tool_usage (pre @ ws @ rest) = parse_tool_usage (pre @ rest)
    \<and> parse_tool_usage (str ''   Action: chat_llm'' @ NL @ str ''Action Input: hello'') =
        (Some (str ''chat_llm''), Some (str ''hello''))"
proof
  show "parse_tool_usage (pre @ ws @ rest) = parse_tool_usage (pre @ rest)"
    using assms by (intro parse_stripped_lines padding_same_stripped_lines)
  show "parse_tool_usage (str ''   Action: chat_llm'' @ NL @ str ''Action Input: hello'') =
        (Some (str ''chat_llm''), Some (str ''hello''))"
    by (simp add: ev)
qed

theorem parse_tool_usage_ignores_padding_witness:
  "list_all is_space (str ''   '') \<and> 10 \<notin> set (str ''   '') \<and>
   parse_tool_usage (str ''   '' @ str ''Action: chat_llm'' @ NL @ str ''Action Input: hello'') =
     parse_tool_usage (str ''Action: chat_llm'' @ NL @ str ''Action Input: hello'') \<and>
   parse_tool_usage (str ''Action: chat_llm'' @ NL @ str ''Action Input: hello'') =
     (Some (str ''chat_llm''), Some (str ''hello''))"
proof -
  have ws: "\<forall>c\<in>set (str ''   ''). is_space c" by (simp add: str_def is_space_def)
  have nl: "10 \<notin> set (str ''   '')" by (simp add: str_def)
  have "parse_tool_usage ([] @ str ''   '' @ str ''Action: chat_llm'' @ NL @ str ''Action Input: hello'') =
     parse_tool_usage ([] @ str ''Action: chat_llm'' @ NL @ str ''Action Input: hello'')"
    using parse_tool_usage_ignores_padding[OF ws nl, of "[]"] by blast
  moreover have "parse_tool_usage (str ''Action: chat_llm'' @ NL @ str ''Action Input: hello'') =
     (Some (str ''chat_llm''), Some (str ''hello''))"
    by (simp add: ev)
  ultimately show ?thesis using ws nl by (simp add: list_all_iff)
qed

section \<open>The text after the last marker\<close>

lemma split_from_absent: "\<not> contains s sep \<Longrightarrow> split_from sep acc s = [rev acc @ s]"
  by (induction s arbitrary: acc) auto

lemma split_from_not_Nil: "split_from sep acc s \<noteq> []"
  by (induction sep acc s rule: split_from.induct) auto

lemma split_from_prefix:
  assumes "sep \<noteq> []"
  shows "split_from sep acc (sep @ t) = rev acc # split_from sep [] t"
proof -
  obtain c cs where c: "sep @ t = c # cs" using assms by (cases sep) auto
  have "startswith (c # cs) sep" using c by (metis startswith_iff)
  moreover have "drop (length sep) (c # cs) = t" using c by (metis append_eq_conv_conj)
  ultimately show ?thesis using c assms by simp
qed

lemma no_overlap:
  assumes "hd sep \<notin> set (tl sep)" and "sep \<noteq> []"
    and "startswith (before @ sep @ after) sep" and "before \<noteq> []"
  shows "length sep \<le> length before"
proof (rule ccontr)
  assume "\<not> length sep \<le> length before"
  then have d: "length before < length sep" by simp
  obtain t where t: "before @ sep @ after = sep @ t" using assms(3) by (auto simp: startswith_iff)
  have "(before @ sep @ after) ! length before = hd sep"
    using assms(2) by (simp add: nth_append hd_conv_nth)
  moreover have "(sep @ t) ! length before = sep ! length before"
    using d by (simp add: nth_append)
  ultimately have "sep ! length before = hd sep" using t by simp
  moreover have "0 < length before" using assms(4) by simp
  ultimately have "hd sep \<in> set (tl sep)"
    using d by (metis Suc_pred in_set_conv_nth length_tl less_diff_conv nth_tl Suc_eq_plus1)
  then show False using assms(1) by simp
qed

lemma last_split_from:
  assumes "hd sep \<notin> set (tl sep)" and "sep \<noteq> []" and "\<not> contains after sep"
  shows "last (split_from sep acc (before @ sep @ after)) = after"
proof (induction "length before" arbitrary: before acc rule: less_induct)
  case less
  show ?case
  proof (cases before)
    case Nil
    then show ?thesis using assms by (simp add: split_from_prefix split_from_absent)
  next
    case (Cons c b)
    show ?thesis
    proof (cases "startswith (before @ sep @ after) sep")
      case True
      have le: "length sep \<le> length before"
        using no_overlap[OF assms(1,2) True] Cons by simp
      have dr: "drop (length sep) (before @ sep @ after) = drop (length sep) before @ sep @ after"
        using le by simp
      obtain x xs where x: "before @ sep @ after = x # xs" using Cons by simp
      have "split_from sep acc (x # xs) = rev acc # split_from sep [] (drop (length sep) (x # xs))"
        using True assms(2) x by simp
      then have "split_from sep acc (before @ sep @ after) =
          rev acc # split_from sep [] (drop (length sep) before @ sep @ after)"
        using x dr by simp
      moreover have "length (drop (length sep) before) < length before"
        using assms(2) Cons by simp
      ultimately show ?thesis using less[of "drop (length sep) before" "[]"] split_from_not_Nil
        by simp
    next
      case False
      then have "split_from sep acc (before @ sep @ after) = split_from sep (c # acc) (b @ sep @ after)"
        using Cons by simp
      then show ?thesis using less[of b "c # acc"] Cons by simp
    qed
  qed
qed

lemma contains_append_left: "contains a sep \<Longrightarrow> contains (x @ a) sep"
proof -
  assume "contains a sep"
  then obtain u v where "a = u @ sep @ v" by (auto simp: contains_iff)
  then have "x @ a = (x @ u) @ sep @ v" by simp
  then show ?thesis unfolding contains_iff by blast
qed

lemma last_occurrence:
  assumes "sep \<noteq> []" and "contains s sep"
  shows "\<exists>before after. s = before @ sep @ after \<and> \<not> contains after sep"
  using assms(2)
proof (induction s)
  case Nil
  then show ?case using assms(1) by simp
next
  case (Cons c cs)
  show ?case
  proof (cases "contains cs sep")
    case True
    then obtain b a where "cs = b @ sep @ a" "\<not> contains a sep" using Cons.IH by blast
    then have "c # cs = (c # b) @ sep @ a \<and> \<not> contains a sep" by simp
    then show ?thesis by blast
  next
    case False
    then have "startswith (c # cs) sep" using Cons.prems by simp
    then obtain t where t: "c # cs = sep @ t" by (auto simp: startswith_iff)
    obtain x xs where x: "sep = x # xs" using assms(1) by (cases sep) auto
    then have "cs = xs @ t" using t by simp
    then have "\<not> contains t sep" using False contains_append_left by blast
    then have "c # cs = [] @ sep @ t \<and> \<not> contains t sep" using t by simp
    then show ?thesis by blast
  qed
qed

lemma final_answer_no_overlap: "hd FINAL_ANSWER \<notin> set (tl FINAL_ANSWER)" "FINAL_ANSWER \<noteq> []"
  by (simp_all add: FINAL_ANSWER_def str_def)

lemma text_after_last_marker:
  assumes "\<not> contains after FINAL_ANSWER"
  shows "last (py_split (before @ FINAL_ANSWER @ after) FINAL_ANSWER) = after"
  using last_split_from[OF final_answer_no_overlap assms] by (simp add: py_split_def)

section \<open>ReActCoordinator.\_step: the handling of the reply\<close>

lemmas ev_step = step_reply_def execute_def format_tool_result_def LLM_HEAD_def
  failing_tool_def canned_tool_def canned_result_def answered_def after_tool_def initial_state_def
  awaiting_tool_def no_step_key_def
  SYSTEM_def USER_def ASSISTANT_def

text \<open>
  The lemmas of this section describe the lines of \<open>_step\<close> that follow the model's reply,
  for a given reply. The step as a whole does not get there (see the next section).

  When the reply contains the marker \<open>Final Answer:\<close>, the reply splits at its last
  occurrence of the marker, and these lines return the state with the raw reply appended
  as an assistant turn, the step counter of the reasoning result plus one, and
  \<open>final_answer\<close> set to the stripped text after that occurrence.
\<close>

lemma step_reply_final_answer:
  assumes "contains response_content FINAL_ANSWER"
  shows "\<exists>before after.
     response_content = before @ FINAL_ANSWER @ after \<and> \<not> contains after FINAL_ANSWER \<and>
     step_reply tools state conversation cs response_content =
       Inr (state\<lparr>messages := Some (conversation @ [\<lparr>role = ASSISTANT, content = Some response_content\<rparr>]),
                  current_step := Some (cs + 1),
                  final_answer := Some (strip after)\<rparr>)"
proof -
  obtain before after where ba:
    "response_content = before @ FINAL_ANSWER @ after" "\<not> contains after FINAL_ANSWER"
    using last_occurrence[OF final_answer_no_overlap(2) assms] by blast
  have "last (py_split response_content FINAL_ANSWER) = after"
    using ba text_after_last_marker by simp
  then have "step_reply tools state conversation cs response_content =
       Inr (state\<lparr>messages := Some (conversation @ [\<lparr>role = ASSISTANT, content = Some response_content\<rparr>]),
                  current_step := Some (cs + 1),
                  final_answer := Some (strip after)\<rparr>)"
    using assms by (simp add: step_reply_def)
  then show ?thesis using ba by blast
qed

text \<open>
  When the reply names a registered tool, these lines return what the tool's execution
  returns: a failure of the tool is passed on and no state is returned; a result is
  appended to \<open>intermediate_results\<close>, the tool name to \<open>tools_used\<close>, and its rendering as
  a user turn after the reply.
\<close>

lemma step_reply_tool_outcome:
  assumes "\<not> contains response_content FINAL_ANSWER"
    and "parse_tool_usage response_content = (Some tool_name, Some tool_input)"
    and "tool_name \<noteq> []" and "tools tool_name = Some tool"
  shows "step_reply tools state conversation cs response_content =
     (case tool \<lparr>query = tool_input, user_id = None, session_id = None\<rparr> tool_input of
        Inl e \<Rightarrow> Inl e
      | Inr tool_result \<Rightarrow>
          Inr (state\<lparr>messages :=
                       Some (conversation @
                         [\<lparr>role = ASSISTANT, content = Some response_content\<rparr>,
                          \<lparr>role = USER, content = Some (format_tool_result tool_name tool_result)\<rparr>]),
                     current_step := Some (cs + 1),
                     tools_used := Some (get_or [] (tools_used state) @ [tool_name]),
                     intermediate_results :=
                       Some (get_or [] (intermediate_results state) @ [tool_result])\<rparr>))"
  using assms by (simp add: step_reply_def execute_def split: sum.splits)

text \<open>
  These lines keep \<open>final_answer\<close> whenever the reply has no \<open>Final Answer:\<close> marker, and
  replace it by the stripped text after the last marker otherwise, whether or not it was
  set before.
\<close>

lemma step_reply_final_answer_kept:
  assumes "step_reply tools state conversation cs response_content = Inr state'"
  shows "final_answer state' =
     (if contains response_content FINAL_ANSWER
      then Some (strip (last (py_split response_content FINAL_ANSWER)))
      else final_answer state)"
  using assms
  by (auto simp: step_reply_def Let_def split: if_splits prod.splits option.splits sum.splits)

section \<open>StockReActAgent.reason and the whole step\<close>

lemma reason_try_failure_unbound: "reason_try state = Inl (e, v) \<Longrightarrow> v = None"
  by (auto simp: reason_try_def split: option.splits)

text \<open>
  Claim C6. On a state with both keys, \<open>reason\<close> returns the message history with one
  system turn prepended and otherwise unmodified, the step counter unchanged and no final
  answer; but the content of that system turn is \<open>None\<close>, not the protocol text, because
  \<open>_get_system_prompt\<close> returns \<open>None\<close>.
\<close>

theorem reason_prepends_none_prompt:
  "reason (state\<lparr>messages := Some msgs, current_step := Some cs\<rparr>) =
     Inr \<lparr>rr_messages = \<lparr>role = SYSTEM, content = None\<rparr> # msgs,
          rr_current_step = cs, rr_final_answer = None\<rparr>
   \<and> reason (initial_state (str ''hi'')) =
     Inr \<lparr>rr_messages = [\<lparr>role = SYSTEM, content = None\<rparr>, \<lparr>role = USER, content = Some (str ''hi'')\<rparr>],
          rr_current_step = 0, rr_final_answer = None\<rparr>"
  by (simp add: reason_def reason_try_def get_system_prompt_def initial_state_def)

lemma reason_never_degraded: "reason state = Inr r \<Longrightarrow> rr_final_answer r = None"
  by (auto simp: reason_def reason_try_def reason_except_def split: option.splits)

text \<open>
  Claim C7. \<open>reason\<close> does raise: whenever its \<open>try\<close> block fails, its handler fails in
  turn, because it subscripts the state again and reads the local variable
  \<open>current_step\<close>, which is unassigned after any failure of the \<open>try\<close> block. On an
  instance of \<open>AgentState\<close> it raises the TypeError of the subscript, on a dict without the
  key \<open>current_step\<close> an UnboundLocalError, on a dict without \<open>messages\<close> a KeyError; on
  every other dict it returns the non-failure result. It never returns a degraded state.
\<close>

theorem reason_raises_on_failure:
  "reason_call (AsModel (initial_state (str ''hi''))) = Inl (TypeError NOT_SUBSCRIPTABLE)
   \<and> reason no_step_key = Inl (UnboundLocalError UNBOUND_CURRENT_STEP)
   \<and> reason state =
       (case messages state of
          None \<Rightarrow> Inl (KeyError (str ''messages''))
        | Some msgs \<Rightarrow>
            (case current_step state of
               None \<Rightarrow> Inl (UnboundLocalError UNBOUND_CURRENT_STEP)
             | Some cs \<Rightarrow>
                 Inr \<lparr>rr_messages = \<lparr>role = SYSTEM, content = None\<rparr> # msgs,
                      rr_current_step = cs, rr_final_answer = None\<rparr>))"
  by (simp add: reason_call_def reason_def reason_try_def reason_except_def get_system_prompt_def
      no_step_key_def split: option.splits)

text \<open>Every returning path of the reply handling sets the step counter to the counter of
  the reasoning result plus one.\<close>

lemma step_reply_counter:
  assumes "step_reply tools state conversation cs response_content = Inr state'"
  shows "current_step state' = Some (cs + 1)"
  using assms
  by (auto simp: step_reply_def Let_def split: if_splits prod.splits option.splits sum.splits)

text \<open>
  Claim C1. One call of the step never returns a state: with the system turn's content
  \<open>None\<close>, flattening the conversation into the prompt raises a TypeError before the
  model is called (and a state without \<open>messages\<close> or \<open>current_step\<close> makes \<open>reason\<close>
  raise). So no call yields \<open>current_step + 1\<close>.
\<close>

theorem step_always_raises:
  "step chat tools state =
     (case messages state of
        None \<Rightarrow> Inl (KeyError (str ''messages''))
      | Some msgs \<Rightarrow>
          (case current_step state of
             None \<Rightarrow> Inl (UnboundLocalError UNBOUND_CURRENT_STEP)
           | Some cs \<Rightarrow> Inl (TypeError (JOIN_NONE 0))))
   \<and> step chat tools (initial_state (str ''hi'')) = Inl (TypeError (JOIN_NONE 0))"
  by (simp add: step_def reason_def reason_try_def reason_except_def get_system_prompt_def
      join_contents_def initial_state_def split: option.splits)

lemma step_raises: "\<exists>e. step chat tools state = Inl e"
  by (simp add: step_def reason_def reason_try_def reason_except_def get_system_prompt_def
      join_contents_def split: option.splits)


text \<open>
  Claim C8. With a model whose reply is \<open>Final Answer: 42\<close>, the step on the start state
  raises before the model is called, on the dict (the TypeError of the join) and on the
  instance (the TypeError of the subscript); and on no state does the step return a state.
  So the step never sets \<open>final_answer\<close>, appends the reply or counts the step.
\<close>

theorem step_final_answer_reply_raises:
  "step (\<lambda>prompt. Inr (str ''Final Answer: 42'')) tools (initial_state (str ''hi'')) =
     Inl (TypeError (JOIN_NONE 0))
   \<and> step_call (\<lambda>prompt. Inr (str ''Final Answer: 42'')) tools (AsModel (initial_state (str ''hi''))) =
     Inl (TypeError NOT_SUBSCRIPTABLE)
   \<and> step chat tools state \<noteq> Inr state'"
  using step_raises[of chat tools state]
  by (auto simp: step_def reason_def reason_try_def get_system_prompt_def join_contents_def
      initial_state_def step_call_def reason_call_def)

text \<open>
  Claim C2. With a model that asks for the registered tool \<open>chat_llm\<close> and a tool whose
  execution fails, the step on the start state raises, on the dict and on the instance,
  before the model and the tool are called: it returns no state, so no entry with
  \<open>success=false\<close> and no observation turn. \<open>BaseTool.execute\<close> itself passes the failure of
  the tool on.
\<close>

theorem step_failing_tool_raises:
  "step (\<lambda>prompt. Inr (str ''Action: chat_llm'' @ NL @ str ''Action Input: hi''))
     [str ''chat_llm'' \<mapsto> failing_tool] (initial_state (str ''hi'')) = Inl (TypeError (JOIN_NONE 0))
   \<and> step_call (\<lambda>prompt. Inr (str ''Action: chat_llm'' @ NL @ str ''Action Input: hi''))
     [str ''chat_llm'' \<mapsto> failing_tool] (AsModel (initial_state (str ''hi''))) =
     Inl (TypeError NOT_SUBSCRIPTABLE)
   \<and> execute failing_tool ctx q = Inl (Raised (str ''provider down''))
   \<and> step chat tools state \<noteq> Inr state'"
  using step_raises[of chat tools state]
  by (auto simp: step_def reason_def reason_try_def get_system_prompt_def join_contents_def
      initial_state_def step_call_def reason_call_def execute_def failing_tool_def)

text \<open>
  Claim C5. On a state whose \<open>final_answer\<close> is already set, the step raises, on the dict
  and on the instance, whatever the model would reply: it returns no state, so none with
  the same \<open>final_answer\<close>.
\<close>

theorem step_on_answered_raises:
  "final_answer answered = Some (str ''A'')
   \<and> step chat tools answered = Inl (TypeError (JOIN_NONE 0))
   \<and> step_call chat tools (AsModel answered) = Inl (TypeError NOT_SUBSCRIPTABLE)"
  by (simp add: step_def reason_def reason_try_def get_system_prompt_def join_contents_def
      answered_def step_call_def reason_call_def)

section \<open>should\_continue\<close>




section \<open>analyze\<close>

lemma combine_strings:
  assumes "list_all (\<lambda>m. role m = USER \<or> content m \<noteq> None) msgs"
  shows "combine msgs acc =
     Inr (acc @ concat (map (\<lambda>m. get_or [] (content m) @ NL) (filter (\<lambda>m. role m \<noteq> USER) msgs)))"
  using assms by (induction msgs arbitrary: acc) auto

text \<open>
  For a state whose turns other than the user's all have a string content, \<open>analyze\<close>
  answers with \<open>final_answer\<close> when it is a non-empty string, and otherwise with the
  contents of the turns whose role is not \<open>user\<close>, each followed by a newline, concatenated
  and stripped. A system turn with the content \<open>None\<close>, which every output of \<open>_step\<close> would
  start with, gives the failure payload instead.
\<close>

lemma analyze_answer:
  assumes "list_all (\<lambda>m. role m = USER \<or> content m \<noteq> None) (get_or [] (messages final_state))"
  shows "analyze (Inr final_state) sid =
     \<lparr>answer =
        (if truthy (final_answer final_state) then get_or [] (final_answer final_state)
         else strip (concat (map (\<lambda>m. get_or [] (content m) @ NL)
                (filter (\<lambda>m. role m \<noteq> USER) (get_or [] (messages final_state)))))),
      success = True, meta_session_id = sid,
      steps = length (get_or [] (messages final_state)),
      meta_tools_used = get_or [] (tools_used final_state),
      meta_intermediate_results = get_or [] (intermediate_results final_state)\<rparr>"
  using combine_strings[OF assms, of "[]"] by (simp add: analyze_def)

lemma analyze_none_content:
  "analyze (Inr (state\<lparr>messages := Some (\<lparr>role = SYSTEM, content = None\<rparr> # msgs)\<rparr>)) sid =
     failure_payload sid (TypeError ADD_NONE)"
  by (simp add: analyze_def SYSTEM_def USER_def str_def)



end
